theory Spec2Isabelle
  imports Main
begin

section \<open>JavaScript strings\<close>

text \<open>
  A JavaScript string is a sequence of code units; the model uses \<^typ>\<open>string\<close>, that is
  the code units 0 to 255. \<open>length\<close> is the property \<^verbatim>\<open>.length\<close>.
  The white space of \<^verbatim>\<open>String.prototype.trim\<close> and of the regular expression class
  \<^verbatim>\<open>\s\<close> in that range: TAB (9), LF (10), VT (11), FF (12), CR (13), SPACE (32) and NBSP (160).
\<close>

definition is_ws :: "char \<Rightarrow> bool" where
  "is_ws c = ((of_char c :: nat) \<in> set [9, 10, 11, 12, 13, 32, 160])"

definition trim :: "string \<Rightarrow> string" where
  "trim s = rev (dropWhile is_ws (rev (dropWhile is_ws s)))"

text \<open>\<^verbatim>\<open>val.replace(/\s/g, "")\<close>\<close>

definition remove_ws :: "string \<Rightarrow> string" where
  "remove_ws s = filter (\<lambda>c. \<not> is_ws c) s"

text \<open>\<^verbatim>\<open>String.prototype.toLowerCase\<close>: A-Z, and the upper-case letters of Latin-1
  (0xC0 to 0xDE but the multiplication sign 0xD7), move up by 32.\<close>

definition lower_char :: "char \<Rightarrow> char" where
  "lower_char c =
     (let n = (of_char c :: nat)
      in if (65 \<le> n \<and> n \<le> 90) \<or> (192 \<le> n \<and> n \<le> 222 \<and> n \<noteq> 215)
         then char_of (n + 32) else c)"

definition toLowerCase :: "string \<Rightarrow> string" where
  "toLowerCase s = map lower_char s"

fun starts_with :: "string \<Rightarrow> string \<Rightarrow> bool" where
  "starts_with s [] = True"
| "starts_with [] (p # ps) = False"
| "starts_with (c # cs) (p # ps) = (c = p \<and> starts_with cs ps)"

text \<open>\<^verbatim>\<open>s.includes(sub)\<close>\<close>

fun includes_str :: "string \<Rightarrow> string \<Rightarrow> bool" where
  "includes_str [] sub = (sub = [])"
| "includes_str (c # cs) sub = (starts_with (c # cs) sub \<or> includes_str cs sub)"

text \<open>\<^verbatim>\<open>/[\r\n]/.test(val)\<close>\<close>

definition has_newline :: "string \<Rightarrow> bool" where
  "has_newline s = list_ex (\<lambda>c. c = CHR 0x0D \<or> c = CHR 0x0A) s"

section \<open>Regular expressions of the schema\<close>

text \<open>
  The phone pattern is a sequence of character classes, each with a repetition range,
  anchored at both ends. \<open>rx_match\<close> tries every repetition count in the range, as the
  backtracking matcher of the language does.
\<close>

datatype cls = Digit | OneOf string | SepDashSpaceDot

fun in_cls :: "cls \<Rightarrow> char \<Rightarrow> bool" where
  "in_cls Digit c = (48 \<le> (of_char c :: nat) \<and> (of_char c :: nat) \<le> 57)"
| "in_cls (OneOf cs) c = (c \<in> set cs)"
| "in_cls SepDashSpaceDot c = (c = CHR ''-'' \<or> is_ws c \<or> c = CHR ''.'')"

fun rx_match :: "(cls \<times> nat \<times> nat) list \<Rightarrow> string \<Rightarrow> bool" where
  "rx_match [] s = (s = [])"
| "rx_match ((c, lo, hi) # rest) s =
     list_ex (\<lambda>k. k \<le> length s \<and> list_all (in_cls c) (take k s) \<and> rx_match rest (drop k s))
       [lo ..< Suc hi]"

text \<open>\<^verbatim>\<open>/^[+]?[(]?[0-9]{3}[)]?[-\s.]?[0-9]{3}[-\s.]?[0-9]{4,6}$/\<close>\<close>

definition phoneRegex :: "(cls \<times> nat \<times> nat) list" where
  "phoneRegex =
     [(OneOf ''+'', 0, 1), (OneOf ''('', 0, 1), (Digit, 3, 3), (OneOf '')'', 0, 1),
      (SepDashSpaceDot, 0, 1), (Digit, 3, 3), (SepDashSpaceDot, 0, 1), (Digit, 4, 6)]"

text \<open>
  The e-mail pattern is the one built into the validation library (zod 3.22 and later):
  \<^verbatim>\<open>/^(?!\.)(?!.*\.\.)([A-Z0-9_'+\-\.]*)[A-Z0-9_+-]@([A-Z0-9][A-Z0-9\-]*\.)+[A-Z]{2,}$/i\<close>.
  Neither \<^verbatim>\<open>@\<close> nor \<^verbatim>\<open>.\<close> is in a class of the domain part, so the string splits in
  one way only: at its \<^verbatim>\<open>@\<close> and, after it, at every dot.
\<close>

definition is_alpha :: "char \<Rightarrow> bool" where
  "is_alpha c = (let n = (of_char c :: nat) in (65 \<le> n \<and> n \<le> 90) \<or> (97 \<le> n \<and> n \<le> 122))"

definition is_alnum :: "char \<Rightarrow> bool" where
  "is_alnum c = (is_alpha c \<or> in_cls Digit c)"

fun split_on :: "char \<Rightarrow> string \<Rightarrow> string list" where
  "split_on d [] = [[]]"
| "split_on d (c # cs) =
     (if c = d then [] # split_on d cs
      else (case split_on d cs of [] \<Rightarrow> [[c]] | w # ws \<Rightarrow> (c # w) # ws))"

definition email_local_ok :: "string \<Rightarrow> bool" where
  "email_local_ok l =
     (l \<noteq> [] \<and>
      list_all (\<lambda>c. is_alnum c \<or> c \<in> set ''_'' \<or> c \<in> set [CHR 0x27, CHR ''+'', CHR ''-'', CHR ''.'']) (butlast l) \<and>
      (is_alnum (last l) \<or> last l \<in> set ''_+-''))"

definition email_domain_ok :: "string \<Rightarrow> bool" where
  "email_domain_ok d =
     (let labels = split_on (CHR ''.'') d
      in 2 \<le> length labels \<and>
         list_all (\<lambda>w. w \<noteq> [] \<and> is_alnum (hd w) \<and> list_all (\<lambda>c. is_alnum c \<or> c = CHR ''-'') (tl w))
           (butlast labels) \<and>
         2 \<le> length (last labels) \<and> list_all is_alpha (last labels))"

definition zod_email :: "string \<Rightarrow> bool" where
  "zod_email s =
     (\<not> starts_with s ''.'' \<and> \<not> includes_str s ''..'' \<and>
      (case dropWhile (\<lambda>c. c \<noteq> CHR ''@'') s of
         [] \<Rightarrow> False
       | _ # d \<Rightarrow> email_local_ok (takeWhile (\<lambda>c. c \<noteq> CHR ''@'') s) \<and> email_domain_ok d))"

section \<open>The validation library's combinators\<close>

text \<open>
  The result of parsing one value: valid, dirty (a check failed; the value goes on to the
  remaining checks and refinements, never to a transform or the target of a pipe) or
  invalid (the value has the wrong type; nothing else runs).
\<close>

datatype issue_code = invalid_type | too_small | too_big | invalid_string | custom

datatype issue = Issue issue_code string

datatype 'a parsed = OK 'a | DIRTY 'a "issue list" | INVALID "issue list"

text \<open>A property of the untrusted object: absent, a string, or a value of another type
  (with the name of its type).\<close>

datatype jsfield = Undefined | NonString string | Str string

datatype check = Min nat string | Max nat string | Trim | Email string

fun run_checks :: "check list \<Rightarrow> string \<Rightarrow> issue list \<Rightarrow> string \<times> issue list" where
  "run_checks [] s iss = (s, iss)"
| "run_checks (Min n msg # cs) s iss =
     run_checks cs s (if length s < n then iss @ [Issue too_small msg] else iss)"
| "run_checks (Max n msg # cs) s iss =
     run_checks cs s (if length s > n then iss @ [Issue too_big msg] else iss)"
| "run_checks (Trim # cs) s iss = run_checks cs (trim s) iss"
| "run_checks (Email msg # cs) s iss =
     run_checks cs s (if \<not> zod_email s then iss @ [Issue invalid_string msg] else iss)"

text \<open>\<^verbatim>\<open>z.string()\<close> with its chained checks, in the order they are written.\<close>

definition z_string :: "check list \<Rightarrow> jsfield \<Rightarrow> string parsed" where
  "z_string cs x =
     (case x of
        Undefined \<Rightarrow> INVALID [Issue invalid_type ''Required'']
      | NonString t \<Rightarrow> INVALID [Issue invalid_type (''Expected string, received '' @ t)]
      | Str s \<Rightarrow> (case run_checks cs s [] of (v, []) \<Rightarrow> OK v | (v, i # iss) \<Rightarrow> DIRTY v (i # iss)))"

text \<open>\<^verbatim>\<open>.transform(f)\<close>: only a valid value is transformed.\<close>

definition transform :: "('a \<Rightarrow> 'a) \<Rightarrow> 'a parsed \<Rightarrow> 'a parsed" where
  "transform f r = (case r of OK v \<Rightarrow> OK (f v) | DIRTY v iss \<Rightarrow> DIRTY v iss | INVALID iss \<Rightarrow> INVALID iss)"

text \<open>\<^verbatim>\<open>.refine(p, msg)\<close>: runs on a valid and on a dirty value.\<close>

definition refine :: "('a \<Rightarrow> bool) \<Rightarrow> string \<Rightarrow> 'a parsed \<Rightarrow> 'a parsed" where
  "refine p msg r =
     (case r of
        OK v \<Rightarrow> if p v then OK v else DIRTY v [Issue custom msg]
      | DIRTY v iss \<Rightarrow> if p v then DIRTY v iss else DIRTY v (iss @ [Issue custom msg])
      | INVALID iss \<Rightarrow> INVALID iss)"

text \<open>\<^verbatim>\<open>.pipe(schema)\<close>: only a valid value reaches the second schema.\<close>

definition pipe :: "(jsfield \<Rightarrow> string parsed) \<Rightarrow> string parsed \<Rightarrow> string parsed" where
  "pipe schema r =
     (case r of OK v \<Rightarrow> schema (Str v) | DIRTY v iss \<Rightarrow> DIRTY v iss | INVALID iss \<Rightarrow> INVALID iss)"

text \<open>\<^verbatim>\<open>.optional()\<close>: an absent property is valid and stays absent.\<close>

definition optional :: "(jsfield \<Rightarrow> 'a parsed) \<Rightarrow> jsfield \<Rightarrow> 'a option parsed" where
  "optional schema x =
     (if x = Undefined then OK None
      else (case schema x of
              OK v \<Rightarrow> OK (Some v)
            | DIRTY v iss \<Rightarrow> DIRTY (Some v) iss
            | INVALID iss \<Rightarrow> INVALID iss))"

definition accepted :: "'a parsed \<Rightarrow> bool" where
  "accepted r = (case r of OK v \<Rightarrow> True | DIRTY v iss \<Rightarrow> False | INVALID iss \<Rightarrow> False)"

definition issues_of :: "'a parsed \<Rightarrow> issue list" where
  "issues_of r = (case r of OK v \<Rightarrow> [] | DIRTY v iss \<Rightarrow> iss | INVALID iss \<Rightarrow> iss)"

section \<open>The lead submission schema\<close>

text \<open>
  \<open>sanitizeInput\<close> calls the sanitizer of an external library with no tag and no attribute
  allowed, then trims. The library call is the parameter \<open>purify\<close>: the theorems below
  hold for every such function, and the closed examples use \<open>strip_tags\<close>.
\<close>

definition sanitizeInput :: "(string \<Rightarrow> string) \<Rightarrow> string \<Rightarrow> string" where
  "sanitizeInput purify input = trim (purify input)"

definition name_schema :: "(string \<Rightarrow> string) \<Rightarrow> jsfield \<Rightarrow> string parsed" where
  "name_schema purify x =
     pipe (z_string [Min 1 ''Name is required''])
       (transform (sanitizeInput purify)
         (z_string [Min 1 ''Name is required'', Max 100 ''Name is too long''] x))"

definition email_schema :: "(string \<Rightarrow> string) \<Rightarrow> jsfield \<Rightarrow> string parsed" where
  "email_schema purify x =
     transform (\<lambda>val. toLowerCase (sanitizeInput purify val))
       (refine (\<lambda>val. \<not> has_newline val) ''Email cannot contain newlines''
         (z_string [Trim, Email ''Please enter a valid email address'', Max 255 ''Email is too long''] x))"

definition phone_ok :: "string option \<Rightarrow> bool" where
  "phone_ok val =
     (case val of None \<Rightarrow> True | Some s \<Rightarrow> s = [] \<or> rx_match phoneRegex (remove_ws s))"

definition phone_schema :: "jsfield \<Rightarrow> string option parsed" where
  "phone_schema x =
     refine phone_ok ''Please enter a valid phone number'' (optional (z_string []) x)"

definition message_schema :: "(string \<Rightarrow> string) \<Rightarrow> jsfield \<Rightarrow> string parsed" where
  "message_schema purify x =
     pipe (z_string [Min 1 ''Message is required'', Max 1000 ''Message is too long''])
       (transform (sanitizeInput purify)
         (z_string [Min 1 ''Message is required'', Max 1000 ''Message is too long''] x))"

record LeadSubmission =
  name :: string
  email :: string
  phone :: "string option"
  message :: string

text \<open>
  \<open>safeParse\<close> of the object schema: the untrusted object maps property names to values;
  every field is parsed, in the order of the schema, and the issues of all fields are
  reported together, each with the path of its field.
\<close>

definition at_path :: "string \<Rightarrow> 'a parsed \<Rightarrow> (string \<times> issue) list" where
  "at_path p r = map (\<lambda>i. (p, i)) (issues_of r)"

definition leadSubmissionSchema ::
  "(string \<Rightarrow> string) \<Rightarrow> (string \<Rightarrow> jsfield) \<Rightarrow> (string \<times> issue) list + LeadSubmission" where
  "leadSubmissionSchema purify obj =
     (let n = name_schema purify (obj ''name'');
          e = email_schema purify (obj ''email'');
          p = phone_schema (obj ''phone'');
          m = message_schema purify (obj ''message'')
      in case (n, e, p, m) of
           (OK n', OK e', OK p', OK m') \<Rightarrow>
             Inr \<lparr>name = n', email = e', phone = p', message = m'\<rparr>
         | _ \<Rightarrow> Inl (at_path ''name'' n @ at_path ''email'' e @ at_path ''phone'' p @ at_path ''message'' m))"

text \<open>
  A sanitizer for closed examples: it drops every tag, from \<^verbatim>\<open><\<close> to the next \<^verbatim>\<open>>\<close>, and
  keeps the text between tags. On the example strings used below (plain text without
  \<^verbatim>\<open>&\<close>, and inline elements around plain text) the library's result, once trimmed, is the
  same.
\<close>

fun strip_tags :: "string \<Rightarrow> string" and skip_tag :: "string \<Rightarrow> string" where
  "strip_tags [] = []"
| "strip_tags (c # cs) = (if c = CHR ''<'' then skip_tag cs else c # strip_tags cs)"
| "skip_tag [] = []"
| "skip_tag (c # cs) = (if c = CHR ''>'' then strip_tags cs else skip_tag cs)"

section \<open>The setup wizard\<close>

subsection \<open>The step restored on load\<close>

text \<open>
  \<open>safeLocalStorage.getItem\<close>: the stored string, or null when storage does not exist or
  the read throws (every branch of its handler returns null).
\<close>

datatype localStorage = NoStorage | Throwing | Items "string \<Rightarrow> string option"

definition getItem :: "localStorage \<Rightarrow> string \<Rightarrow> string option" where
  "getItem ls key = (case ls of NoStorage \<Rightarrow> None | Throwing \<Rightarrow> None | Items m \<Rightarrow> m key)"

definition SETUP_STORAGE_KEY :: string where
  "SETUP_STORAGE_KEY = ''smartsheetconnect-setup-progress''"

text \<open>
  \<^verbatim>\<open>parseInt(saved, 10)\<close>: leading white space is skipped, one sign is read, then the
  longest run of decimal digits; with no digit the result is NaN, here \<open>None\<close>. What
  follows the digits is ignored.
\<close>

definition digit_val :: "char \<Rightarrow> int" where
  "digit_val c = int (of_char c) - 48"

definition digits_value :: "string \<Rightarrow> int" where
  "digits_value ds = foldl (\<lambda>acc c. acc * 10 + digit_val c) 0 ds"

definition parseInt10 :: "string \<Rightarrow> int option" where
  "parseInt10 s =
     (let s1 = dropWhile is_ws s;
          neg = (s1 \<noteq> [] \<and> hd s1 = CHR ''-'');
          s2 = (if s1 \<noteq> [] \<and> (hd s1 = CHR ''-'' \<or> hd s1 = CHR ''+'') then tl s1 else s1);
          ds = takeWhile (in_cls Digit) s2
      in if ds = [] then None
         else Some (if neg then - digits_value ds else digits_value ds))"

text \<open>The initializer of the \<open>step\<close> state: \<open>saved\<close> is used when it is neither null nor
  empty and parses to a number from 1 to 9.\<close>

definition initial_step_of :: "string option \<Rightarrow> int" where
  "initial_step_of saved =
     (case saved of
        None \<Rightarrow> 1
      | Some s \<Rightarrow>
          if s \<noteq> [] then
            (case parseInt10 s of
               None \<Rightarrow> 1
             | Some savedStep \<Rightarrow> if savedStep \<ge> 1 \<and> savedStep \<le> 9 then savedStep else 1)
          else 1)"

definition initial_step :: "localStorage \<Rightarrow> int" where
  "initial_step ls = initial_step_of (getItem ls SETUP_STORAGE_KEY)"

subsection \<open>Polling the setup status\<close>

record SetupStatus =
  configured :: bool
  missing :: "string list"
  details :: "(string \<times> bool) list"

text \<open>
  The part of the wizard's state that the status query reads and writes: the current
  step, the rate-limit flag, and the query cache, which holds the last status fetched for
  each query key (the key carries the step).
\<close>

record wizard =
  step :: int
  isRateLimited :: bool
  cache :: "int \<Rightarrow> SetupStatus option"

text \<open>What the status endpoint answered: 429, another failure status, or success with a
  body that parses (or does not) to a status.\<close>

datatype status_response = Http429 | HttpFailure | HttpOk "SetupStatus option"

datatype query_error = FailedToCheck | BodyNotJson

text \<open>\<open>queryFn\<close> of the status query, with the flag it sets.\<close>

definition status_queryFn :: "wizard \<Rightarrow> status_response \<Rightarrow> wizard \<times> (query_error + SetupStatus)" where
  "status_queryFn w res =
     (case res of
        Http429 \<Rightarrow> (w\<lparr>isRateLimited := True\<rparr>, Inr \<lparr>configured = False, missing = [], details = []\<rparr>)
      | HttpFailure \<Rightarrow> (w, Inl FailedToCheck)
      | HttpOk body \<Rightarrow>
          (w\<lparr>isRateLimited := False\<rparr>,
           case body of None \<Rightarrow> Inl BodyNotJson | Some st \<Rightarrow> Inr st))"

text \<open>A fetch that settles: a result becomes the data of the current key, an error leaves
  the data as it was (\<open>retry: false\<close>).\<close>

definition on_response :: "wizard \<Rightarrow> status_response \<Rightarrow> wizard" where
  "on_response w res =
     (case status_queryFn w res of
        (w', Inr st) \<Rightarrow> w'\<lparr>cache := (cache w')(step w' \<mapsto> st)\<rparr>
      | (w', Inl e) \<Rightarrow> w')"

text \<open>\<open>refetchInterval\<close>: \<open>None\<close> is \<^verbatim>\<open>false\<close>, no polling.\<close>

definition refetchInterval :: "wizard \<Rightarrow> nat option" where
  "refetchInterval w =
     (if (case cache w (step w) of None \<Rightarrow> False | Some st \<Rightarrow> configured st) then None
      else if step w = 8 \<and> \<not> isRateLimited w then Some 5000
      else None)"

text \<open>
  The events of a session: a status fetch settles (started by the poll timer, by the
  first use of a query key after a step change, or by \<open>refetchStatus()\<close> after a
  mutation), or the step changes.
\<close>

datatype event = Response status_response | SetStep int

fun wizard_event :: "wizard \<Rightarrow> event \<Rightarrow> wizard" where
  "wizard_event w (Response res) = on_response w res"
| "wizard_event w (SetStep n) = w\<lparr>step := n\<rparr>"

definition run_events :: "wizard \<Rightarrow> event list \<Rightarrow> wizard" where
  "run_events w evs = foldl wizard_event w evs"

section \<open>The configuration query\<close>

text \<open>
  A value parsed from a response body. Of a number the code only reads whether it is
  zero, so numbers are integers here. An object is the map from its property names to
  their values; the order of the properties is not part of the model, since the code
  never enumerates them.
\<close>

datatype jsval =
    JNull
  | JBool bool
  | JNum int
  | JStr string
  | JArr "jsval list"
  | JObj "string \<Rightarrow> jsval option"

text \<open>An object literal (with distinct property names).\<close>

definition object_of :: "(string \<times> jsval) list \<Rightarrow> jsval" where
  "object_of kvs = JObj (map_of kvs)"

text \<open>\<^verbatim>\<open>!v\<close> is \<open>\<not> truthy v\<close>; \<open>None\<close> is \<^verbatim>\<open>undefined\<close>.\<close>

fun truthy :: "jsval \<Rightarrow> bool" where
  "truthy JNull = False"
| "truthy (JBool b) = b"
| "truthy (JNum n) = (n \<noteq> 0)"
| "truthy (JStr s) = (s \<noteq> [])"
| "truthy (JArr xs) = True"
| "truthy (JObj m) = True"

definition truthy_opt :: "jsval option \<Rightarrow> bool" where
  "truthy_opt v = (case v of None \<Rightarrow> False | Some x \<Rightarrow> truthy x)"

text \<open>\<^verbatim>\<open>typeof v === 'object'\<close>\<close>

fun is_object :: "jsval \<Rightarrow> bool" where
  "is_object JNull = True"
| "is_object (JArr xs) = True"
| "is_object (JObj m) = True"
| "is_object v = False"

definition digit_char :: "nat \<Rightarrow> char" where
  "digit_char d = char_of (48 + d)"

function show_nat :: "nat \<Rightarrow> string" where
  "show_nat n = (if n < 10 then [digit_char n] else show_nat (n div 10) @ [digit_char (n mod 10)])"
  by pat_completeness auto
termination
  by (relation "measure id") auto

declare show_nat.simps [simp del]

text \<open>The own enumerable properties of a value, as the spread \<^verbatim>\<open>...data\<close> reads them: those
  of an object, the indexed elements of an array, the indexed characters of a string, none
  of any other value.\<close>

fun own_props :: "jsval \<Rightarrow> string \<Rightarrow> jsval option" where
  "own_props (JObj m) = m"
| "own_props (JArr xs) = map_of (zip (map show_nat [0 ..< length xs]) xs)"
| "own_props (JStr s) = map_of (zip (map show_nat [0 ..< length s]) (map (\<lambda>c. JStr [c]) s))"
| "own_props v = Map.empty"

text \<open>\<^verbatim>\<open>data.branding\<close>, \<^verbatim>\<open>data.content\<close>: the property of an object; on an array a name that
  is no index is \<^verbatim>\<open>undefined\<close>.\<close>

fun get_prop :: "jsval \<Rightarrow> string \<Rightarrow> jsval option" where
  "get_prop (JObj m) k = m k"
| "get_prop v k = None"

text \<open>\<^verbatim>\<open>{ ...a, ...b }\<close>: a new object with the own properties of \<open>a\<close>, then those of \<open>b\<close>
  assigned over them.\<close>

definition spread :: "jsval \<Rightarrow> jsval \<Rightarrow> jsval" where
  "spread a b = JObj (own_props a ++ own_props b)"

text \<open>\<open>DEFAULT_CONFIG\<close>; the copyright line holds the year in which the module is loaded.\<close>

definition DEFAULT_CONFIG :: "nat \<Rightarrow> jsval" where
  "DEFAULT_CONFIG year =
     object_of [
       (''branding'', object_of [
          (''companyName'', JStr ''SmartSheetConnect''),
          (''logo'', JStr ''/assets/SmartSheetConnect.png''),
          (''primaryColor'', JStr ''#2563eb'')]),
       (''content'', object_of [
          (''hero'', object_of [
             (''title'', JStr ''SmartSheetConnect''),
             (''description'', JStr ''Automated lead capture that logs to Google Sheets and sends notifications''),
             (''ctaText'', JStr ''Get Started''),
             (''secondaryCtaText'', JStr ''Learn More''),
             (''benefits'', JArr [])]),
          (''form'', object_of [
             (''title'', JStr ''Get in Touch''),
             (''description'', JStr (''Fill out the form below and we'' @ [CHR 0x27] @ ''ll get back to you as soon as possible'')),
             (''submitText'', JStr ''Send Message'')])]),
       (''header'', object_of [
          (''navigation'', JArr []),
          (''ctaText'', JStr ''Get Started'')]),
       (''footer'', object_of [
          (''description'', JStr ''Professional lead capture automation for businesses that value efficiency and never missing an opportunity.''),
          (''socialLinks'', object_of []),
          (''quickLinks'', JArr []),
          (''resources'', JArr []),
          (''copyright'', JStr ([CHR 0xA9] @ '' '' @ show_nat year @ '' SmartSheetConnect. All rights reserved.''))])]"

text \<open>
  A thrown value: whether it is an \<^verbatim>\<open>Error\<close> instance, its name and its message.
\<close>

record thrown =
  is_Error :: bool
  err_name :: string
  err_message :: string

datatype json_result = JsonThrows thrown | JsonValue jsval

record response =
  status :: nat
  statusText :: string
  json :: json_result

definition ok :: "response \<Rightarrow> bool" where
  "ok res = (200 \<le> status res \<and> status res \<le> 299)"

datatype fetch_result = Rejects thrown | Resolves response

text \<open>
  All that one run of \<open>queryFn\<close> reads from outside: how \<^verbatim>\<open>fetch\<close> settled (the timer
  firing and a cancellation by the caller both make it reject with an AbortError), and
  what \<^verbatim>\<open>signal?.aborted || controller.signal.aborted\<close> gives after the fetch and in the
  handler.
\<close>

record outcome =
  fetched :: fetch_result
  aborted_after_fetch :: bool
  aborted_in_catch :: bool

definition new_Error :: "string \<Rightarrow> thrown" where
  "new_Error msg = \<lparr>is_Error = True, err_name = ''Error'', err_message = msg\<rparr>"

text \<open>The \<^verbatim>\<open>try\<close> block: \<open>Inl\<close> is a value thrown in it, \<open>Inr\<close> the warnings logged and
  the value returned.\<close>

definition try_block :: "nat \<Rightarrow> outcome \<Rightarrow> thrown + (string list \<times> jsval)" where
  "try_block year oc =
     (case fetched oc of
        Rejects e \<Rightarrow> Inl e
      | Resolves res \<Rightarrow>
          if aborted_after_fetch oc then Inl (new_Error ''Request was cancelled'')
          else if \<not> ok res then
            (if status res \<ge> 500
             then Inr ([''Config API returned '' @ show_nat (status res) @ '', using default config''],
                       DEFAULT_CONFIG year)
             else Inl (new_Error (''Failed to load configuration: '' @ show_nat (status res) @ '' '' @ statusText res)))
          else
            (case json res of
               JsonThrows e \<Rightarrow> Inl e
             | JsonValue data \<Rightarrow>
                 if \<not> truthy data \<or> \<not> is_object data
                 then Inr ([''Invalid config response, using default config''], DEFAULT_CONFIG year)
                 else if \<not> truthy_opt (get_prop data ''branding'') \<or> \<not> truthy_opt (get_prop data ''content'')
                 then Inr ([''Config missing required fields, using default config''],
                           spread (DEFAULT_CONFIG year) data)
                 else Inr ([], data)))"

text \<open>The \<^verbatim>\<open>catch\<close> block.\<close>

definition catch_block :: "nat \<Rightarrow> outcome \<Rightarrow> thrown \<Rightarrow> thrown + (string list \<times> jsval)" where
  "catch_block year oc error =
     (if is_Error error then
        (if err_name error = ''AbortError'' \<and> aborted_in_catch oc then Inr ([], DEFAULT_CONFIG year)
         else if err_name error = ''AbortError''
         then Inr ([''Config API request timed out, using default config''], DEFAULT_CONFIG year)
         else if includes_str (err_message error) ''fetch'' \<or> includes_str (err_message error) ''cancelled''
         then Inr ([], DEFAULT_CONFIG year)
         else Inr ([''Config API error: '' @ err_message error @ '', using default config''],
                   DEFAULT_CONFIG year))
      else Inr ([], DEFAULT_CONFIG year))"

definition queryFn :: "nat \<Rightarrow> outcome \<Rightarrow> thrown + (string list \<times> jsval)" where
  "queryFn year oc = (case try_block year oc of Inr r \<Rightarrow> Inr r | Inl e \<Rightarrow> catch_block year oc e)"

text \<open>The \<open>retry\<close> and \<open>retryDelay\<close> options.\<close>

definition retry :: "nat \<Rightarrow> thrown \<Rightarrow> bool" where
  "retry failureCount error =
     (if failureCount < 1 then
        (if is_Error error then
           (let errorMessage = toLowerCase (err_message error)
            in if includes_str errorMessage ''network'' \<or>
                  includes_str errorMessage ''timeout'' \<or>
                  includes_str errorMessage ''500'' \<or>
                  includes_str errorMessage ''503'' \<or>
                  includes_str errorMessage ''502''
               then True else False)
         else False)
      else False)"

definition retryDelay :: "nat \<Rightarrow> nat" where
  "retryDelay attemptIndex = min (1000 * 2 ^ attemptIndex) 5000"

text \<open>
  The query library's retry loop around a query function \<open>f\<close>: each run of \<open>f\<close> takes the
  next outcome of the environment; when \<open>f\<close> throws, \<open>retry\<close> is asked with the number of
  failures so far, and a retry waits \<open>retryDelay\<close> of that number. The result is the list
  of delays waited, one for each retry, and how the query settled (\<open>None\<close>: the list of
  outcomes ended first).
\<close>

fun run_query ::
  "('o \<Rightarrow> thrown + 'a) \<Rightarrow> 'o list \<Rightarrow> nat \<Rightarrow> nat list \<times> (thrown + 'a) option" where
  "run_query f [] failureCount = ([], None)"
| "run_query f (oc # ocs) failureCount =
     (case f oc of
        Inr v \<Rightarrow> ([], Some (Inr v))
      | Inl e \<Rightarrow>
          if retry failureCount e
          then (case run_query f ocs (failureCount + 1) of
                  (delays, r) \<Rightarrow> (retryDelay failureCount # delays, r))
          else ([], Some (Inl e)))"

section \<open>The phone pattern as described\<close>

text \<open>
  The phone pattern in the words of its description: an optional \<^verbatim>\<open>+\<close>, an optional opening
  parenthesis, three digits, an optional closing parenthesis, an optional separator (dash,
  white space or dot), three digits, an optional separator, and four to six digits. Each
  parenthesis is optional on its own.
\<close>

definition opt_char :: "(char \<Rightarrow> bool) \<Rightarrow> string \<Rightarrow> bool" where
  "opt_char P w = (w = [] \<or> (\<exists>c. w = [c] \<and> P c))"

definition all_digits :: "string \<Rightarrow> bool" where
  "all_digits w = list_all (in_cls Digit) w"

definition phone_pattern :: "string \<Rightarrow> bool" where
  "phone_pattern t =
     (\<exists>plus lpar area rpar sep1 exch sep2 subscr.
        t = plus @ lpar @ area @ rpar @ sep1 @ exch @ sep2 @ subscr \<and>
        opt_char (\<lambda>c. c = CHR ''+'') plus \<and>
        opt_char (\<lambda>c. c = CHR ''('') lpar \<and>
        all_digits area \<and> length area = 3 \<and>
        opt_char (\<lambda>c. c = CHR '')'') rpar \<and>
        opt_char (\<lambda>c. c = CHR ''-'' \<or> is_ws c \<or> c = CHR ''.'') sep1 \<and>
        all_digits exch \<and> length exch = 3 \<and>
        opt_char (\<lambda>c. c = CHR ''-'' \<or> is_ws c \<or> c = CHR ''.'') sep2 \<and>
        all_digits subscr \<and> 4 \<le> length subscr \<and> length subscr \<le> 6)"

section \<open>Properties of the string functions\<close>

lemma is_ws_lower_char: "is_ws (lower_char c) = is_ws c"
  by (auto simp: is_ws_def lower_char_def Let_def)

lemma lower_char_idem: "lower_char (lower_char c) = lower_char c"
  by (auto simp: lower_char_def Let_def)

lemma toLowerCase_idem: "toLowerCase (toLowerCase s) = toLowerCase s"
  by (simp add: toLowerCase_def lower_char_idem)

lemma dropWhile_keeps_last:
  "xs \<noteq> [] \<Longrightarrow> \<not> P (last xs) \<Longrightarrow> dropWhile P xs \<noteq> [] \<and> last (dropWhile P xs) = last xs"
  by (induction xs) (auto split: if_splits)

text \<open>A string is trimmed when it neither starts nor ends with white space.\<close>

lemma trim_fixed:
  assumes "s = [] \<or> (\<not> is_ws (hd s) \<and> \<not> is_ws (last s))"
  shows "trim s = s"
proof (cases "s = []")
  case True
  then show ?thesis by (simp add: trim_def)
next
  case False
  with assms have h: "\<not> is_ws (hd s)" and l: "\<not> is_ws (last s)" by auto
  from False h have a: "dropWhile is_ws s = s" by (cases s) auto
  from False l have "\<not> is_ws (hd (rev s))" by (simp add: hd_rev)
  with False have "dropWhile is_ws (rev s) = rev s" by (cases "rev s") auto
  with a show ?thesis by (simp add: trim_def)
qed

lemma trim_ends: "trim s = [] \<or> (\<not> is_ws (hd (trim s)) \<and> \<not> is_ws (last (trim s)))"
proof (cases "trim s = []")
  case True
  then show ?thesis by simp
next
  case False
  let ?u = "dropWhile is_ws s"
  let ?v = "dropWhile is_ws (rev ?u)"
  from False have v: "?v \<noteq> []" by (simp add: trim_def)
  then have u: "?u \<noteq> []" by (metis dropWhile.simps(1) rev.simps(1))
  have hu: "\<not> is_ws (hd ?u)" using u by (rule hd_dropWhile)
  have hv: "\<not> is_ws (hd ?v)" using v by (rule hd_dropWhile)
  have "last (rev ?u) = hd ?u" using u by (simp add: last_rev)
  with hu u have "last ?v = hd ?u" using dropWhile_keeps_last [of "rev ?u" is_ws] by simp
  with hu v hv show ?thesis by (simp add: trim_def hd_rev last_rev)
qed

lemma trim_idem: "trim (trim s) = trim s"
  by (rule trim_fixed) (rule trim_ends)

lemma trim_toLowerCase_trim: "trim (toLowerCase (trim s)) = toLowerCase (trim s)"
proof (rule trim_fixed)
  show "toLowerCase (trim s) = [] \<or>
    (\<not> is_ws (hd (toLowerCase (trim s))) \<and> \<not> is_ws (last (toLowerCase (trim s))))"
    using trim_ends [of s]
    by (cases "trim s = []") (auto simp: toLowerCase_def hd_map last_map is_ws_lower_char)
qed

lemma trim_replicate_A: "0 < n \<Longrightarrow> trim (replicate n (CHR ''A'')) = replicate n (CHR ''A'')"
  by (rule trim_fixed) (simp add: is_ws_def)

section \<open>Properties of the field schemas\<close>

lemma name_schema_Str:
  "name_schema purify (Str s) =
     (if s = [] then DIRTY s [Issue too_small ''Name is required'']
      else if length s > 100 then DIRTY s [Issue too_big ''Name is too long'']
      else if sanitizeInput purify s = [] then DIRTY [] [Issue too_small ''Name is required'']
      else OK (sanitizeInput purify s))"
  by (simp add: name_schema_def pipe_def transform_def z_string_def)

lemma message_schema_Str:
  "message_schema purify (Str s) =
     (if s = [] then DIRTY s [Issue too_small ''Message is required'']
      else if length s > 1000 then DIRTY s [Issue too_big ''Message is too long'']
      else if sanitizeInput purify s = [] then DIRTY [] [Issue too_small ''Message is required'']
      else if length (sanitizeInput purify s) > 1000
      then DIRTY (sanitizeInput purify s) [Issue too_big ''Message is too long'']
      else OK (sanitizeInput purify s))"
  by (simp add: message_schema_def pipe_def transform_def z_string_def)

lemma email_schema_Str:
  "email_schema purify (Str e) =
     (let t = trim e;
          iss = (if \<not> zod_email t then [Issue invalid_string ''Please enter a valid email address''] else []) @
                (if length t > 255 then [Issue too_big ''Email is too long''] else []) @
                (if has_newline t then [Issue custom ''Email cannot contain newlines''] else [])
      in if iss = [] then OK (toLowerCase (sanitizeInput purify t)) else DIRTY t iss)"
  by (simp add: email_schema_def refine_def transform_def z_string_def Let_def)

lemma phone_schema_Str:
  "phone_schema (Str s) =
     (if s = [] \<or> rx_match phoneRegex (remove_ws s) then OK (Some s)
      else DIRTY (Some s) [Issue custom ''Please enter a valid phone number''])"
  by (simp add: phone_schema_def refine_def optional_def z_string_def phone_ok_def)

lemma phone_schema_Undefined: "phone_schema Undefined = OK None"
  by (simp add: phone_schema_def refine_def optional_def phone_ok_def)

lemma phone_schema_NonString: "phone_schema (NonString t) = INVALID [Issue invalid_type (''Expected string, received '' @ t)]"
  by (simp add: phone_schema_def refine_def optional_def z_string_def)

lemma name_schema_OK_Str: "name_schema purify x = OK v \<Longrightarrow> \<exists>s. x = Str s"
  by (cases x) (simp_all add: name_schema_def pipe_def transform_def z_string_def)

lemma message_schema_OK_Str: "message_schema purify x = OK v \<Longrightarrow> \<exists>s. x = Str s"
  by (cases x) (simp_all add: message_schema_def pipe_def transform_def z_string_def)

lemma email_schema_OK_Str: "email_schema purify x = OK v \<Longrightarrow> \<exists>s. x = Str s"
  by (cases x) (simp_all add: email_schema_def refine_def transform_def z_string_def)

lemma accepted_OK: "accepted r = (\<exists>v. r = OK v)"
  by (cases r) (simp_all add: accepted_def)

text \<open>The object schema succeeds exactly when its four fields are valid, with their values.\<close>

lemma leadSubmissionSchema_Inr:
  "(leadSubmissionSchema purify obj = Inr out) =
     (name_schema purify (obj ''name'') = OK (name out) \<and>
      email_schema purify (obj ''email'') = OK (email out) \<and>
      phone_schema (obj ''phone'') = OK (phone out) \<and>
      message_schema purify (obj ''message'') = OK (message out))"
  by (cases out) (auto simp: leadSubmissionSchema_def Let_def split: parsed.splits)

lemma leadSubmissionSchema_Inl:
  "(leadSubmissionSchema purify obj = Inl iss) =
     (\<not> (accepted (name_schema purify (obj ''name'')) \<and> accepted (email_schema purify (obj ''email'')) \<and>
         accepted (phone_schema (obj ''phone'')) \<and> accepted (message_schema purify (obj ''message''))) \<and>
      iss = at_path ''name'' (name_schema purify (obj ''name'')) @
            at_path ''email'' (email_schema purify (obj ''email'')) @
            at_path ''phone'' (phone_schema (obj ''phone'')) @
            at_path ''message'' (message_schema purify (obj ''message'')))"
  by (auto simp: leadSubmissionSchema_def Let_def accepted_def split: parsed.splits)

section \<open>The phone pattern\<close>

lemma rx_match_Cons:
  "rx_match ((c, lo, hi) # rest) s =
     (\<exists>pre post. s = pre @ post \<and> lo \<le> length pre \<and> length pre \<le> hi \<and>
        list_all (in_cls c) pre \<and> rx_match rest post)"
proof
  assume "rx_match ((c, lo, hi) # rest) s"
  then obtain k where k: "lo \<le> k" "k \<le> hi" "k \<le> length s"
      "list_all (in_cls c) (take k s)" "rx_match rest (drop k s)"
    by (auto simp: list_ex_iff)
  show "\<exists>pre post. s = pre @ post \<and> lo \<le> length pre \<and> length pre \<le> hi \<and>
        list_all (in_cls c) pre \<and> rx_match rest post"
    using k by (intro exI [of _ "take k s"] exI [of _ "drop k s"]) simp
next
  assume "\<exists>pre post. s = pre @ post \<and> lo \<le> length pre \<and> length pre \<le> hi \<and>
        list_all (in_cls c) pre \<and> rx_match rest post"
  then obtain pre post where p: "s = pre @ post" "lo \<le> length pre" "length pre \<le> hi"
      "list_all (in_cls c) pre" "rx_match rest post"
    by blast
  then show "rx_match ((c, lo, hi) # rest) s"
    by (auto simp: list_ex_iff intro!: bexI [of _ "length pre"])
qed

lemma rx_match_append:
  "lo \<le> length pre \<Longrightarrow> length pre \<le> hi \<Longrightarrow> list_all (in_cls c) pre \<Longrightarrow> rx_match rest post
   \<Longrightarrow> rx_match ((c, lo, hi) # rest) (pre @ post)"
  unfolding rx_match_Cons by blast

lemma opt_char_iff: "(length w \<le> Suc 0 \<and> list_all P w) = opt_char P w"
  by (cases w) (auto simp: opt_char_def)

lemma rx_match_ConsD:
  "rx_match ((c, lo, hi) # rest) s \<Longrightarrow>
     \<exists>pre post. s = pre @ post \<and> lo \<le> length pre \<and> length pre \<le> hi \<and>
        list_all (in_cls c) pre \<and> rx_match rest post"
  by (simp only: rx_match_Cons)

lemma phoneRegex_pattern: "rx_match phoneRegex t = phone_pattern t"
proof
  assume "rx_match phoneRegex t"
  then have m0: "rx_match ((OneOf ''+'', 0, 1) # (OneOf ''('', 0, 1) # (Digit, 3, 3) # (OneOf '')'', 0, 1) #
      (SepDashSpaceDot, 0, 1) # (Digit, 3, 3) # (SepDashSpaceDot, 0, 1) # [(Digit, 4, 6)]) t"
    by (simp only: phoneRegex_def)
  from rx_match_ConsD [OF m0] obtain w1 r1 where
    1: "t = w1 @ r1" "length w1 \<le> 1" "list_all (in_cls (OneOf ''+'')) w1" and
    m1: "rx_match ((OneOf ''('', 0, 1) # (Digit, 3, 3) # (OneOf '')'', 0, 1) #
      (SepDashSpaceDot, 0, 1) # (Digit, 3, 3) # (SepDashSpaceDot, 0, 1) # [(Digit, 4, 6)]) r1"
    by blast
  from rx_match_ConsD [OF m1] obtain w2 r2 where
    2: "r1 = w2 @ r2" "length w2 \<le> 1" "list_all (in_cls (OneOf ''('')) w2" and
    m2: "rx_match ((Digit, 3, 3) # (OneOf '')'', 0, 1) #
      (SepDashSpaceDot, 0, 1) # (Digit, 3, 3) # (SepDashSpaceDot, 0, 1) # [(Digit, 4, 6)]) r2"
    by blast
  from rx_match_ConsD [OF m2] obtain w3 r3 where
    3: "r2 = w3 @ r3" "3 \<le> length w3" "length w3 \<le> 3" "list_all (in_cls Digit) w3" and
    m3: "rx_match ((OneOf '')'', 0, 1) #
      (SepDashSpaceDot, 0, 1) # (Digit, 3, 3) # (SepDashSpaceDot, 0, 1) # [(Digit, 4, 6)]) r3"
    by blast
  from rx_match_ConsD [OF m3] obtain w4 r4 where
    4: "r3 = w4 @ r4" "length w4 \<le> 1" "list_all (in_cls (OneOf '')'')) w4" and
    m4: "rx_match ((SepDashSpaceDot, 0, 1) # (Digit, 3, 3) # (SepDashSpaceDot, 0, 1) # [(Digit, 4, 6)]) r4"
    by blast
  from rx_match_ConsD [OF m4] obtain w5 r5 where
    5: "r4 = w5 @ r5" "length w5 \<le> 1" "list_all (in_cls SepDashSpaceDot) w5" and
    m5: "rx_match ((Digit, 3, 3) # (SepDashSpaceDot, 0, 1) # [(Digit, 4, 6)]) r5"
    by blast
  from rx_match_ConsD [OF m5] obtain w6 r6 where
    6: "r5 = w6 @ r6" "3 \<le> length w6" "length w6 \<le> 3" "list_all (in_cls Digit) w6" and
    m6: "rx_match ((SepDashSpaceDot, 0, 1) # [(Digit, 4, 6)]) r6"
    by blast
  from rx_match_ConsD [OF m6] obtain w7 r7 where
    7: "r6 = w7 @ r7" "length w7 \<le> 1" "list_all (in_cls SepDashSpaceDot) w7" and
    m7: "rx_match [(Digit, 4, 6)] r7"
    by blast
  from rx_match_ConsD [OF m7] obtain w8 r8 where
    8: "r7 = w8 @ r8" "4 \<le> length w8" "length w8 \<le> 6" "list_all (in_cls Digit) w8" and
    m8: "rx_match [] r8"
    by blast
  from m8 have r8: "r8 = []" by simp
  have t: "t = w1 @ w2 @ w3 @ w4 @ w5 @ w6 @ w7 @ w8"
    using 1(1) 2(1) 3(1) 4(1) 5(1) 6(1) 7(1) 8(1) r8 by simp
  have o1: "opt_char (\<lambda>c. c = CHR ''+'') w1" using 1(2,3) by (cases w1) (auto simp: opt_char_def)
  have o2: "opt_char (\<lambda>c. c = CHR ''('') w2" using 2(2,3) by (cases w2) (auto simp: opt_char_def)
  have o4: "opt_char (\<lambda>c. c = CHR '')'') w4" using 4(2,3) by (cases w4) (auto simp: opt_char_def)
  have o5: "opt_char (\<lambda>c. c = CHR ''-'' \<or> is_ws c \<or> c = CHR ''.'') w5"
    using 5(2,3) by (cases w5) (auto simp: opt_char_def)
  have o7: "opt_char (\<lambda>c. c = CHR ''-'' \<or> is_ws c \<or> c = CHR ''.'') w7"
    using 7(2,3) by (cases w7) (auto simp: opt_char_def)
  have d: "all_digits w3" "length w3 = 3" "all_digits w6" "length w6 = 3" "all_digits w8"
    using 3 6 8 by (simp_all add: all_digits_def)
  show "phone_pattern t"
    unfolding phone_pattern_def
    apply (rule exI [of _ w1], rule exI [of _ w2], rule exI [of _ w3], rule exI [of _ w4])
    apply (rule exI [of _ w5], rule exI [of _ w6], rule exI [of _ w7], rule exI [of _ w8])
    apply (intro conjI)
    apply (rule t o1 o2 o4 o5 o7 d 8(2) 8(3))+
    done
next
  assume p: "phone_pattern t"
  show "rx_match phoneRegex t"
    using p unfolding phone_pattern_def
  proof (elim exE conjE)
    fix w1 w2 w3 w4 w5 w6 w7 w8
    assume t: "t = w1 @ w2 @ w3 @ w4 @ w5 @ w6 @ w7 @ w8"
      and c1: "opt_char (\<lambda>c. c = CHR ''+'') w1"
      and c2: "opt_char (\<lambda>c. c = CHR ''('') w2"
      and c3: "all_digits w3" "length w3 = 3"
      and c4: "opt_char (\<lambda>c. c = CHR '')'') w4"
      and c5: "opt_char (\<lambda>c. c = CHR ''-'' \<or> is_ws c \<or> c = CHR ''.'') w5"
      and c6: "all_digits w6" "length w6 = 3"
      and c7: "opt_char (\<lambda>c. c = CHR ''-'' \<or> is_ws c \<or> c = CHR ''.'') w7"
      and c8: "all_digits w8" "4 \<le> length w8" "length w8 \<le> 6"
    have l: "0 \<le> length w1" "0 \<le> length w2" "0 \<le> length w4" "0 \<le> length w5" "0 \<le> length w7"
      by simp_all
    have u1: "length w1 \<le> 1" "list_all (in_cls (OneOf ''+'')) w1"
      using c1 by (auto simp: opt_char_def)
    have u2: "length w2 \<le> 1" "list_all (in_cls (OneOf ''('')) w2"
      using c2 by (auto simp: opt_char_def)
    have u4: "length w4 \<le> 1" "list_all (in_cls (OneOf '')'')) w4"
      using c4 by (auto simp: opt_char_def)
    have u5: "length w5 \<le> 1" "list_all (in_cls SepDashSpaceDot) w5"
      using c5 by (auto simp: opt_char_def)
    have u7: "length w7 \<le> 1" "list_all (in_cls SepDashSpaceDot) w7"
      using c7 by (auto simp: opt_char_def)
    have u3: "3 \<le> length w3" "length w3 \<le> 3" "list_all (in_cls Digit) w3"
      using c3 by (simp_all add: all_digits_def)
    have u6: "3 \<le> length w6" "length w6 \<le> 3" "list_all (in_cls Digit) w6"
      using c6 by (simp_all add: all_digits_def)
    have u8: "list_all (in_cls Digit) w8"
      using c8 by (simp_all add: all_digits_def)
    have e: "rx_match [] []" by simp
    note m8 = rx_match_append [OF c8(2) c8(3) u8 e]
    note m7 = rx_match_append [OF l(5) u7 m8]
    note m6 = rx_match_append [OF u6 m7]
    note m5 = rx_match_append [OF l(4) u5 m6]
    note m4 = rx_match_append [OF l(3) u4 m5]
    note m3 = rx_match_append [OF u3 m4]
    note m2 = rx_match_append [OF l(2) u2 m3]
    note m1 = rx_match_append [OF l(1) u1 m2]
    from m1 show "rx_match phoneRegex t"
      by (simp only: phoneRegex_def t append_Nil2)
  qed
qed

section \<open>The claims about the lead submission schema\<close>

text \<open>
  C1 (as amended). A name of at most 100 characters, or a message of at most 1000, that is
  not empty and that \<open>sanitizeInput\<close> reduces to the empty string makes validation fail,
  with the issue "Name is required" (or "Message is required") at that field. The bound
  on the raw length is needed: a longer value fails the maximum check, after which the
  transform and the second minimum check never run, so it is reported as too long and
  not as required.
\<close>

theorem markup_only_field_required:
  "(obj ''name'' = Str s \<and> s \<noteq> [] \<and> length s \<le> 100 \<and> sanitizeInput purify s = [] \<longrightarrow>
      (\<exists>iss. leadSubmissionSchema purify obj = Inl iss \<and>
             (''name'', Issue too_small ''Name is required'') \<in> set iss))
   \<and> (obj ''message'' = Str s \<and> s \<noteq> [] \<and> length s \<le> 1000 \<and> sanitizeInput purify s = [] \<longrightarrow>
      (\<exists>iss. leadSubmissionSchema purify obj = Inl iss \<and>
             (''message'', Issue too_small ''Message is required'') \<in> set iss))
   \<and> (obj ''name'' = Str s \<and> length s > 100 \<longrightarrow>
      (\<exists>iss. leadSubmissionSchema purify obj = Inl iss \<and>
             (''name'', Issue too_big ''Name is too long'') \<in> set iss \<and>
             (''name'', Issue too_small ''Name is required'') \<notin> set iss))
   \<and> (obj ''message'' = Str s \<and> length s > 1000 \<longrightarrow>
      (\<exists>iss. leadSubmissionSchema purify obj = Inl iss \<and>
             (''message'', Issue too_big ''Message is too long'') \<in> set iss \<and>
             (''message'', Issue too_small ''Message is required'') \<notin> set iss))"
proof -
  have a: "obj ''name'' = Str s \<and> s \<noteq> [] \<and> length s \<le> 100 \<and> sanitizeInput purify s = [] \<longrightarrow>
      (\<exists>iss. leadSubmissionSchema purify obj = Inl iss \<and>
             (''name'', Issue too_small ''Name is required'') \<in> set iss)"
    by (auto simp: leadSubmissionSchema_Inl name_schema_Str accepted_def at_path_def issues_of_def)
  have b: "obj ''message'' = Str s \<and> s \<noteq> [] \<and> length s \<le> 1000 \<and> sanitizeInput purify s = [] \<longrightarrow>
      (\<exists>iss. leadSubmissionSchema purify obj = Inl iss \<and>
             (''message'', Issue too_small ''Message is required'') \<in> set iss)"
    by (auto simp: leadSubmissionSchema_Inl message_schema_Str accepted_def at_path_def issues_of_def)
  have c: "obj ''name'' = Str s \<and> length s > 100 \<longrightarrow>
      (\<exists>iss. leadSubmissionSchema purify obj = Inl iss \<and>
             (''name'', Issue too_big ''Name is too long'') \<in> set iss \<and>
             (''name'', Issue too_small ''Name is required'') \<notin> set iss)"
    by (auto simp: leadSubmissionSchema_Inl name_schema_Str accepted_def at_path_def issues_of_def)
  have d: "obj ''message'' = Str s \<and> length s > 1000 \<longrightarrow>
      (\<exists>iss. leadSubmissionSchema purify obj = Inl iss \<and>
             (''message'', Issue too_big ''Message is too long'') \<in> set iss \<and>
             (''message'', Issue too_small ''Message is required'') \<notin> set iss)"
    by (auto simp: leadSubmissionSchema_Inl message_schema_Str accepted_def at_path_def issues_of_def)
  from a b c d show ?thesis by blast
qed

theorem markup_only_field_required_witness:
  "''<b></b>'' \<noteq> [] \<and> length ''<b></b>'' \<le> 100 \<and> sanitizeInput strip_tags ''<b></b>'' = [] \<and>
   (\<exists>iss. leadSubmissionSchema strip_tags
            ((\<lambda>k. Undefined)(''name'' := Str ''<b></b>'', ''email'' := Str ''john@example.com'',
               ''message'' := Str ''<b></b>'')) = Inl iss \<and>
          (''name'', Issue too_small ''Name is required'') \<in> set iss \<and>
          (''message'', Issue too_small ''Message is required'') \<in> set iss)"
proof -
  have s: "sanitizeInput strip_tags ''<b></b>'' = []"
    by (simp add: sanitizeInput_def trim_def)
  show ?thesis
    using s markup_only_field_required
      [of "(\<lambda>k. Undefined)(''name'' := Str ''<b></b>'', ''email'' := Str ''john@example.com'',
             ''message'' := Str ''<b></b>'')" "''<b></b>''" strip_tags]
    by auto
qed

text \<open>
  C1 as stated fails: a name made of fifteen empty \<^verbatim>\<open><b></b>\<close> elements (105 characters) is
  markup that the sanitizer strips to nothing, yet the only issue reported is
  "Name is too long"; the "required" issue is absent.
\<close>

theorem markup_only_overlong_counterexample:
  "concat (replicate 15 ''<b></b>'') \<noteq> [] \<and>
   sanitizeInput strip_tags (concat (replicate 15 ''<b></b>'')) = [] \<and>
   leadSubmissionSchema strip_tags
     ((\<lambda>k. Undefined)(''name'' := Str (concat (replicate 15 ''<b></b>'')),
        ''email'' := Str ''john@example.com'', ''message'' := Str ''Hello''))
   = Inl [(''name'', Issue too_big ''Name is too long'')]"
  by code_simp


lemma length_trim_le: "length (trim s) \<le> length s"
proof -
  have "length (trim s) \<le> length (dropWhile is_ws s)"
    using length_dropWhile_le [of is_ws "rev (dropWhile is_ws s)"] by (simp add: trim_def)
  also have "\<dots> \<le> length s" by (rule length_dropWhile_le)
  finally show ?thesis .
qed

text \<open>
  C2 (as amended). A name is rejected when it is empty, when its length after trimming is
  over 100, and when its sanitized value \<open>trim (purify s)\<close> is empty; a name of 1 to 100 raw
  characters whose sanitized value has at most 100 characters is accepted exactly when
  that value has at least 1 character. A message is rejected when it is empty, when its
  length after trimming is over 1000, and when its sanitized value is empty or longer than
  1000; a message of 1 to 1000 raw characters is accepted exactly when its sanitized value
  has 1 to 1000 characters. A message of 1000 letters A is accepted (when the sanitizer
  leaves it alone), one of 1001 is rejected.
\<close>

theorem name_message_length_rule:
  "(length (trim s) > 100 \<longrightarrow> \<not> accepted (name_schema purify (Str s)))
   \<and> (trim (purify s) = [] \<longrightarrow> \<not> accepted (name_schema purify (Str s)))
   \<and> (1 \<le> length s \<and> length s \<le> 100 \<and> length (trim (purify s)) \<le> 100 \<longrightarrow>
        accepted (name_schema purify (Str s)) = (1 \<le> length (trim (purify s))))
   \<and> (length (trim s) > 1000 \<longrightarrow> \<not> accepted (message_schema purify (Str s)))
   \<and> (trim (purify s) = [] \<longrightarrow> \<not> accepted (message_schema purify (Str s)))
   \<and> (length (trim (purify s)) > 1000 \<longrightarrow> \<not> accepted (message_schema purify (Str s)))
   \<and> (1 \<le> length s \<and> length s \<le> 1000 \<longrightarrow>
        accepted (message_schema purify (Str s)) =
          (1 \<le> length (trim (purify s)) \<and> length (trim (purify s)) \<le> 1000))
   \<and> \<not> accepted (name_schema purify (Str []))
   \<and> \<not> accepted (message_schema purify (Str []))
   \<and> (purify (replicate 1000 (CHR ''A'')) = replicate 1000 (CHR ''A'') \<longrightarrow>
        accepted (message_schema purify (Str (replicate 1000 (CHR ''A'')))))
   \<and> \<not> accepted (message_schema purify (Str (replicate 1001 (CHR ''A''))))"
proof -
  have n1: "length (trim s) > 100 \<longrightarrow> \<not> accepted (name_schema purify (Str s))"
    using length_trim_le [of s] by (auto simp: name_schema_Str accepted_def)
  have n2: "trim (purify s) = [] \<longrightarrow> \<not> accepted (name_schema purify (Str s))"
    by (simp add: name_schema_Str accepted_def sanitizeInput_def)
  have n3: "1 \<le> length s \<and> length s \<le> 100 \<and> length (trim (purify s)) \<le> 100 \<longrightarrow>
        accepted (name_schema purify (Str s)) = (1 \<le> length (trim (purify s)))"
    by (cases "trim (purify s)") (auto simp: name_schema_Str accepted_def sanitizeInput_def)
  have m1: "length (trim s) > 1000 \<longrightarrow> \<not> accepted (message_schema purify (Str s))"
    using length_trim_le [of s] by (auto simp: message_schema_Str accepted_def)
  have m2: "trim (purify s) = [] \<longrightarrow> \<not> accepted (message_schema purify (Str s))"
    by (simp add: message_schema_Str accepted_def sanitizeInput_def)
  have m3: "length (trim (purify s)) > 1000 \<longrightarrow> \<not> accepted (message_schema purify (Str s))"
    by (simp add: message_schema_Str accepted_def sanitizeInput_def)
  have m4: "1 \<le> length s \<and> length s \<le> 1000 \<longrightarrow>
        accepted (message_schema purify (Str s)) =
          (1 \<le> length (trim (purify s)) \<and> length (trim (purify s)) \<le> 1000)"
    by (cases "trim (purify s)") (auto simp: message_schema_Str accepted_def sanitizeInput_def)
  have c: "\<not> accepted (name_schema purify (Str []))" "\<not> accepted (message_schema purify (Str []))"
    by (simp_all add: name_schema_Str message_schema_Str accepted_def)
  have d: "purify (replicate 1000 (CHR ''A'')) = replicate 1000 (CHR ''A'') \<longrightarrow>
      accepted (message_schema purify (Str (replicate 1000 (CHR ''A''))))"
    by (simp add: message_schema_Str accepted_def sanitizeInput_def trim_replicate_A)
  have e: "\<not> accepted (message_schema purify (Str (replicate 1001 (CHR ''A''))))"
    by (simp add: message_schema_Str accepted_def)
  from n1 n2 n3 m1 m2 m3 m4 c d e show ?thesis by blast
qed

theorem name_message_length_rule_witness:
  "accepted (name_schema strip_tags (Str ''  John Doe  '')) \<and>
   \<not> accepted (name_schema strip_tags (Str ''<b></b>'')) \<and>
   \<not> accepted (name_schema strip_tags (Str (replicate 101 (CHR ''A'')))) \<and>
   accepted (message_schema strip_tags (Str (replicate 1000 (CHR ''A'')))) \<and>
   \<not> accepted (message_schema strip_tags (Str (replicate 1001 (CHR ''A''))))"
proof -
  have p: "strip_tags (replicate 1000 (CHR ''A'')) = replicate 1000 (CHR ''A'')"
    by code_simp
  have j: "1 \<le> length ''  John Doe  '' \<and> length ''  John Doe  '' \<le> 100 \<and>
      length (trim (strip_tags ''  John Doe  '')) \<le> 100"
    "1 \<le> length (trim (strip_tags ''  John Doe  ''))"
    by code_simp+
  have b: "trim (strip_tags ''<b></b>'') = []"
    by code_simp
  have l: "length (trim (replicate 101 (CHR ''A''))) > 100"
    by (simp add: trim_replicate_A)
  from name_message_length_rule [of "''  John Doe  ''" strip_tags] j
  have r1: "accepted (name_schema strip_tags (Str ''  John Doe  ''))" by blast
  from name_message_length_rule [of "''<b></b>''" strip_tags] b
  have r2: "\<not> accepted (name_schema strip_tags (Str ''<b></b>''))" by blast
  from name_message_length_rule [of "replicate 101 (CHR ''A'')" strip_tags] l
  have r3: "\<not> accepted (name_schema strip_tags (Str (replicate 101 (CHR ''A''))))" by blast
  from name_message_length_rule [of "[]" strip_tags] p
  have r4: "accepted (message_schema strip_tags (Str (replicate 1000 (CHR ''A'')))) \<and>
    \<not> accepted (message_schema strip_tags (Str (replicate 1001 (CHR ''A''))))" by blast
  from r1 r2 r3 r4 show ?thesis by blast
qed

text \<open>
  C2 as stated fails: the name \<^verbatim>\<open><b></b>\<close> has 7 characters after trimming, which is
  between 1 and 100, and it is rejected, because the sanitizer empties it.
\<close>

theorem trimmed_length_counterexample:
  "length (trim ''<b></b>'') = 7 \<and>
   \<not> accepted (name_schema strip_tags (Str ''<b></b>''))"
  by code_simp

text \<open>
  C3. Whenever the schema accepts an object, name, email and message were strings; the
  returned name and message are the sanitizer's result for the input, trimmed; the
  returned email is the sanitizer's result for the trimmed input, trimmed and lower-cased.
  All three are trimmed and the email is in lower case. \<^verbatim>\<open>JOHN@EXAMPLE.COM\<close> is accepted
  and becomes \<^verbatim>\<open>john@example.com\<close>.
\<close>

theorem accepted_values_normalized:
  "(leadSubmissionSchema purify obj = Inr out \<longrightarrow>
      (\<exists>n e m. obj ''name'' = Str n \<and> obj ''email'' = Str e \<and> obj ''message'' = Str m \<and>
         name out = trim (purify n) \<and>
         message out = trim (purify m) \<and>
         email out = toLowerCase (trim (purify (trim e))) \<and>
         name out = sanitizeInput purify n \<and>
         message out = sanitizeInput purify m \<and>
         email out = toLowerCase (sanitizeInput purify (trim e)) \<and>
         trim (name out) = name out \<and> trim (message out) = message out \<and>
         trim (email out) = email out \<and> toLowerCase (email out) = email out))
   \<and> (purify ''JOHN@EXAMPLE.COM'' = ''JOHN@EXAMPLE.COM'' \<longrightarrow>
        email_schema purify (Str ''JOHN@EXAMPLE.COM'') = OK ''john@example.com'')"
proof (intro conjI impI)
  assume r: "leadSubmissionSchema purify obj = Inr out"
  then have f: "name_schema purify (obj ''name'') = OK (name out)"
    "email_schema purify (obj ''email'') = OK (email out)"
    "message_schema purify (obj ''message'') = OK (message out)"
    by (simp_all add: leadSubmissionSchema_Inr)
  from f(1) obtain n where n: "obj ''name'' = Str n" by (blast dest: name_schema_OK_Str)
  from f(2) obtain e where e: "obj ''email'' = Str e" by (blast dest: email_schema_OK_Str)
  from f(3) obtain m where m: "obj ''message'' = Str m" by (blast dest: message_schema_OK_Str)
  have vn: "name out = sanitizeInput purify n"
    using f(1) n by (simp add: name_schema_Str split: if_splits)
  have vm: "message out = sanitizeInput purify m"
    using f(3) m by (simp add: message_schema_Str split: if_splits)
  have ve: "email out = toLowerCase (sanitizeInput purify (trim e))"
    using f(2) e by (simp add: email_schema_Str Let_def split: if_splits)
  have un: "name out = trim (purify n)" by (simp add: vn sanitizeInput_def)
  have um: "message out = trim (purify m)" by (simp add: vm sanitizeInput_def)
  have ue: "email out = toLowerCase (trim (purify (trim e)))" by (simp add: ve sanitizeInput_def)
  have tn: "trim (name out) = name out" by (simp add: un trim_idem)
  have tm: "trim (message out) = message out" by (simp add: um trim_idem)
  have te: "trim (email out) = email out" by (simp add: ue trim_toLowerCase_trim)
  have le: "toLowerCase (email out) = email out" by (simp add: ue toLowerCase_idem)
  from n e m un um ue vn vm ve tn tm te le
  show "\<exists>n e m. obj ''name'' = Str n \<and> obj ''email'' = Str e \<and> obj ''message'' = Str m \<and>
         name out = trim (purify n) \<and>
         message out = trim (purify m) \<and>
         email out = toLowerCase (trim (purify (trim e))) \<and>
         name out = sanitizeInput purify n \<and>
         message out = sanitizeInput purify m \<and>
         email out = toLowerCase (sanitizeInput purify (trim e)) \<and>
         trim (name out) = name out \<and> trim (message out) = message out \<and>
         trim (email out) = email out \<and> toLowerCase (email out) = email out"
    by blast
next
  assume p: "purify ''JOHN@EXAMPLE.COM'' = ''JOHN@EXAMPLE.COM''"
  have t: "trim ''JOHN@EXAMPLE.COM'' = ''JOHN@EXAMPLE.COM''" by code_simp
  have z: "zod_email ''JOHN@EXAMPLE.COM''" by code_simp
  have h: "\<not> has_newline ''JOHN@EXAMPLE.COM''" by code_simp
  have l: "toLowerCase ''JOHN@EXAMPLE.COM'' = ''john@example.com''" by code_simp
  show "email_schema purify (Str ''JOHN@EXAMPLE.COM'') = OK ''john@example.com''"
    by (simp add: email_schema_Str Let_def sanitizeInput_def t z h l p)
qed

theorem accepted_values_normalized_witness:
  "leadSubmissionSchema strip_tags
     ((\<lambda>k. Undefined)(''name'' := Str ''  <b>John</b> Doe  '', ''email'' := Str ''JOHN@EXAMPLE.COM'',
        ''message'' := Str (''<i>I'' @ [CHR 0x27] @ ''m</i> interested  '')))
   = Inr \<lparr>name = ''John Doe'', email = ''john@example.com'', phone = None,
          message = ''I'' @ [CHR 0x27] @ ''m interested''\<rparr> \<and>
   ''John Doe'' = trim (strip_tags ''  <b>John</b> Doe  '') \<and>
   ''John Doe'' \<noteq> trim ''  <b>John</b> Doe  '' \<and>
   ''john@example.com'' = toLowerCase (trim (strip_tags (trim ''JOHN@EXAMPLE.COM''))) \<and>
   trim ''John Doe'' = ''John Doe'' \<and>
   toLowerCase ''john@example.com'' = ''john@example.com'' \<and>
   email_schema strip_tags (Str ''JOHN@EXAMPLE.COM'') = OK ''john@example.com''"
proof -
  let ?obj = "(\<lambda>k. Undefined)(''name'' := Str ''  <b>John</b> Doe  '', ''email'' := Str ''JOHN@EXAMPLE.COM'',
        ''message'' := Str (''<i>I'' @ [CHR 0x27] @ ''m</i> interested  ''))"
  let ?out = "\<lparr>name = ''John Doe'', email = ''john@example.com'', phone = None,
          message = ''I'' @ [CHR 0x27] @ ''m interested''\<rparr>"
  have r: "leadSubmissionSchema strip_tags ?obj = Inr ?out" by code_simp
  have p: "strip_tags ''JOHN@EXAMPLE.COM'' = ''JOHN@EXAMPLE.COM''" by simp
  have sel: "name ?out = ''John Doe''" "email ?out = ''john@example.com''" by simp_all
  have f: "?obj ''name'' = Str ''  <b>John</b> Doe  ''" "?obj ''email'' = Str ''JOHN@EXAMPLE.COM''"
    by simp_all
  have d: "''John Doe'' \<noteq> trim ''  <b>John</b> Doe  ''" by code_simp
  from accepted_values_normalized [of strip_tags ?obj ?out] r p
  obtain n e where g: "?obj ''name'' = Str n" "?obj ''email'' = Str e"
    "name ?out = trim (strip_tags n)" "email ?out = toLowerCase (trim (strip_tags (trim e)))"
    "trim (name ?out) = name ?out" "toLowerCase (email ?out) = email ?out"
    and j: "email_schema strip_tags (Str ''JOHN@EXAMPLE.COM'') = OK ''john@example.com''"
    by blast
  from g(1) f(1) have n: "n = ''  <b>John</b> Doe  ''" by simp
  from g(2) f(2) have e: "e = ''JOHN@EXAMPLE.COM''" by simp
  from g(3) have w1: "''John Doe'' = trim (strip_tags ''  <b>John</b> Doe  '')"
    by (simp only: sel n)
  from g(4) have w2: "''john@example.com'' = toLowerCase (trim (strip_tags (trim ''JOHN@EXAMPLE.COM'')))"
    by (simp only: sel e)
  from g(5) have w3: "trim ''John Doe'' = ''John Doe''" by (simp only: sel)
  from g(6) have w4: "toLowerCase ''john@example.com'' = ''john@example.com''" by (simp only: sel)
  from r w1 d w2 w3 w4 j show ?thesis by (intro conjI)
qed

text \<open>
  C4 (as amended). An email string is accepted exactly when, after trimming, it matches
  the e-mail pattern, has at most 255 characters and holds no CR or LF. The issues are
  reported in the order of the checks: syntax, length, newline, all on the trimmed
  string; sanitizing and lower-casing come last and only for a valid value. A value that
  still holds CR or LF after trimming is rejected.
\<close>

theorem email_checks_in_order:
  "accepted (email_schema purify (Str e)) =
     (zod_email (trim e) \<and> length (trim e) \<le> 255 \<and> \<not> has_newline (trim e))
   \<and> issues_of (email_schema purify (Str e)) =
       (if \<not> zod_email (trim e) then [Issue invalid_string ''Please enter a valid email address''] else []) @
       (if length (trim e) > 255 then [Issue too_big ''Email is too long''] else []) @
       (if has_newline (trim e) then [Issue custom ''Email cannot contain newlines''] else [])
   \<and> (accepted (email_schema purify (Str e)) \<longrightarrow>
        email_schema purify (Str e) = OK (toLowerCase (sanitizeInput purify (trim e))))
   \<and> (has_newline (trim e) \<longrightarrow> \<not> accepted (email_schema purify (Str e)))"
  by (simp add: email_schema_Str Let_def accepted_def issues_of_def)

theorem email_checks_in_order_witness:
  "email_schema strip_tags (Str '' JOHN@EXAMPLE.COM '') = OK ''john@example.com'' \<and>
   \<not> accepted (email_schema strip_tags (Str (''a'' @ [CHR 0x0A] @ ''b@example.com''))) \<and>
   issues_of (email_schema strip_tags (Str (CHR ''a'' # CHR 0x0A # replicate 260 (CHR ''b'')))) =
     [Issue invalid_string ''Please enter a valid email address'',
      Issue too_big ''Email is too long'',
      Issue custom ''Email cannot contain newlines'']"
proof -
  let ?e1 = "'' JOHN@EXAMPLE.COM ''"
  let ?e2 = "''a'' @ [CHR 0x0A] @ ''b@example.com''"
  let ?e3 = "CHR ''a'' # CHR 0x0A # replicate 260 (CHR ''b'')"
  have a1: "zod_email (trim ?e1)" "length (trim ?e1) \<le> 255" "\<not> has_newline (trim ?e1)"
    "toLowerCase (sanitizeInput strip_tags (trim ?e1)) = ''john@example.com''"
    by code_simp+
  have a2: "has_newline (trim ?e2)"
    by code_simp
  have a3: "\<not> zod_email (trim ?e3)" "length (trim ?e3) > 255" "has_newline (trim ?e3)"
    by code_simp+
  from email_checks_in_order [of strip_tags ?e1] a1
  have b1: "email_schema strip_tags (Str ?e1) = OK ''john@example.com''"
    by metis
  from email_checks_in_order [of strip_tags ?e2] a2
  have b2: "\<not> accepted (email_schema strip_tags (Str ?e2))"
    by blast
  from email_checks_in_order [of strip_tags ?e3]
  have "issues_of (email_schema strip_tags (Str ?e3)) =
       (if \<not> zod_email (trim ?e3) then [Issue invalid_string ''Please enter a valid email address''] else []) @
       (if length (trim ?e3) > 255 then [Issue too_big ''Email is too long''] else []) @
       (if has_newline (trim ?e3) then [Issue custom ''Email cannot contain newlines''] else [])"
    by blast
  then have b3: "issues_of (email_schema strip_tags (Str ?e3)) =
     [Issue invalid_string ''Please enter a valid email address'',
      Issue too_big ''Email is too long'',
      Issue custom ''Email cannot contain newlines'']"
    by (simp only: a3 if_True simp_thms append.simps)
  from b1 b2 b3 show ?thesis by blast
qed

text \<open>
  C4 as stated fails: the value \<^verbatim>\<open>john@example.com\<close> followed by a line feed holds LF and
  is accepted, because trimming removes the line feed before any check.
\<close>

theorem email_trailing_newline_counterexample:
  "has_newline (''john@example.com'' @ [CHR 0x0A]) \<and>
   email_schema strip_tags (Str (''john@example.com'' @ [CHR 0x0A])) = OK ''john@example.com''"
  by code_simp

text \<open>
  C5 (as amended). An absent phone is accepted. A phone string that is not empty is
  accepted exactly when, with all white space removed, it matches the phone pattern: an
  optional \<^verbatim>\<open>+\<close>, an optional opening parenthesis, three digits, an optional closing
  parenthesis, an optional separator, three digits, an optional separator, four to six
  digits. \<^verbatim>\<open>555-123\<close> is rejected and \<^verbatim>\<open>(555) 123-4567\<close> is accepted.
\<close>

theorem phone_rule:
  "phone_schema Undefined = OK None
   \<and> (s \<noteq> [] \<longrightarrow> accepted (phone_schema (Str s)) = rx_match phoneRegex (remove_ws s))
   \<and> rx_match phoneRegex (remove_ws s) = phone_pattern (remove_ws s)
   \<and> \<not> accepted (phone_schema (Str ''555-123''))
   \<and> accepted (phone_schema (Str ''(555) 123-4567''))"
proof -
  have a: "s \<noteq> [] \<longrightarrow> accepted (phone_schema (Str s)) = rx_match phoneRegex (remove_ws s)"
    by (simp add: phone_schema_Str accepted_def)
  have b: "\<not> accepted (phone_schema (Str ''555-123''))" by code_simp
  have c: "accepted (phone_schema (Str ''(555) 123-4567''))" by code_simp
  from a b c phone_schema_Undefined phoneRegex_pattern [of "remove_ws s"]
  show ?thesis by blast
qed

theorem phone_rule_witness:
  "accepted (phone_schema (Str ''555 123 4567'')) \<and>
   phone_pattern (remove_ws ''555 123 4567'') \<and>
   remove_ws ''555 123 4567'' = ''5551234567''"
proof -
  have n: "''555 123 4567'' \<noteq> []" by simp
  have m: "rx_match phoneRegex (remove_ws ''555 123 4567'')" by code_simp
  have r: "remove_ws ''555 123 4567'' = ''5551234567''" by code_simp
  from phone_rule [of "''555 123 4567''"] n m
  have "accepted (phone_schema (Str ''555 123 4567'')) \<and> phone_pattern (remove_ws ''555 123 4567'')"
    by blast
  with r show ?thesis by blast
qed

text \<open>
  C5 as stated fails: the empty string is a provided phone value that does not match the
  pattern, and it is accepted, because the refinement lets every falsy value pass.
\<close>

theorem empty_phone_counterexample:
  "\<not> rx_match phoneRegex (remove_ws []) \<and> accepted (phone_schema (Str []))"
  by code_simp

text \<open>
  C10. An empty phone string is accepted and returned as the empty string, and with it
  the submission when its other fields are valid. Every accepted phone value is returned
  as it was supplied: absent stays absent, a string comes back unchanged.
\<close>

theorem phone_returned_as_supplied:
  "phone_schema (Str []) = OK (Some [])
   \<and> (phone_schema (Str s) = OK v \<longrightarrow> v = Some s)
   \<and> (leadSubmissionSchema purify obj = Inr out \<longrightarrow>
        (obj ''phone'' = Undefined \<and> phone out = None) \<or>
        (\<exists>p. obj ''phone'' = Str p \<and> phone out = Some p))
   \<and> (obj ''phone'' = Str [] \<and> accepted (name_schema purify (obj ''name'')) \<and>
       accepted (email_schema purify (obj ''email'')) \<and>
       accepted (message_schema purify (obj ''message'')) \<longrightarrow>
        (\<exists>out'. leadSubmissionSchema purify obj = Inr out' \<and> phone out' = Some []))"
proof (intro conjI impI)
  show "phone_schema (Str []) = OK (Some [])" by (simp add: phone_schema_Str)
next
  assume "phone_schema (Str s) = OK v"
  then show "v = Some s" by (simp add: phone_schema_Str split: if_splits)
next
  assume "leadSubmissionSchema purify obj = Inr out"
  then have p: "phone_schema (obj ''phone'') = OK (phone out)"
    by (simp add: leadSubmissionSchema_Inr)
  show "(obj ''phone'' = Undefined \<and> phone out = None) \<or>
        (\<exists>p. obj ''phone'' = Str p \<and> phone out = Some p)"
    using p
    by (cases "obj ''phone''")
      (auto simp: phone_schema_Undefined phone_schema_NonString phone_schema_Str split: if_splits)
next
  assume h: "obj ''phone'' = Str [] \<and> accepted (name_schema purify (obj ''name'')) \<and>
       accepted (email_schema purify (obj ''email'')) \<and>
       accepted (message_schema purify (obj ''message''))"
  then obtain n e m where v: "name_schema purify (obj ''name'') = OK n"
    "email_schema purify (obj ''email'') = OK e" "message_schema purify (obj ''message'') = OK m"
    by (auto simp: accepted_OK)
  from h have ph: "phone_schema (obj ''phone'') = OK (Some [])" by (simp add: phone_schema_Str)
  have "leadSubmissionSchema purify obj = Inr \<lparr>name = n, email = e, phone = Some [], message = m\<rparr>"
    using v ph by (simp add: leadSubmissionSchema_Inr)
  then show "\<exists>out'. leadSubmissionSchema purify obj = Inr out' \<and> phone out' = Some []"
    by (intro exI [of _ "\<lparr>name = n, email = e, phone = Some [], message = m\<rparr>"]) simp
qed

theorem phone_returned_as_supplied_witness:
  "leadSubmissionSchema strip_tags
     ((\<lambda>k. Undefined)(''name'' := Str ''John Doe'', ''email'' := Str ''john.doe@example.com'',
        ''phone'' := Str '' (555) 123-4567 '', ''message'' := Str ''Hello''))
   = Inr \<lparr>name = ''John Doe'', email = ''john.doe@example.com'',
          phone = Some '' (555) 123-4567 '', message = ''Hello''\<rparr>
   \<and> (\<exists>out'. leadSubmissionSchema strip_tags
        ((\<lambda>k. Undefined)(''name'' := Str ''John Doe'', ''email'' := Str ''john.doe@example.com'',
           ''phone'' := Str [], ''message'' := Str ''Hello'')) = Inr out' \<and> phone out' = Some [])"
proof -
  let ?o1 = "(\<lambda>k. Undefined)(''name'' := Str ''John Doe'', ''email'' := Str ''john.doe@example.com'',
        ''phone'' := Str '' (555) 123-4567 '', ''message'' := Str ''Hello'')"
  let ?o2 = "(\<lambda>k. Undefined)(''name'' := Str ''John Doe'', ''email'' := Str ''john.doe@example.com'',
        ''phone'' := Str [], ''message'' := Str ''Hello'')"
  have r1: "leadSubmissionSchema strip_tags ?o1
   = Inr \<lparr>name = ''John Doe'', email = ''john.doe@example.com'',
          phone = Some '' (555) 123-4567 '', message = ''Hello''\<rparr>"
    by code_simp
  have f: "?o2 ''phone'' = Str []" by simp
  have a: "accepted (name_schema strip_tags (?o2 ''name''))"
    "accepted (email_schema strip_tags (?o2 ''email''))"
    "accepted (message_schema strip_tags (?o2 ''message''))"
    by code_simp+
  from phone_returned_as_supplied [of _ _ strip_tags ?o2] f a
  have "\<exists>out'. leadSubmissionSchema strip_tags ?o2 = Inr out' \<and> phone out' = Some []"
    by blast
  with r1 show ?thesis by (rule conjI)
qed


section \<open>The claims about the setup wizard\<close>

lemma parseInt10_Nil: "parseInt10 [] = None"
  by (simp add: parseInt10_def)

text \<open>
  C6. When the stored value does not parse to a number (or nothing is stored), or parses
  to an integer below 1 or above 9, the wizard starts at step 1; when it parses to an
  integer from 1 to 9, the wizard starts at that step. The stored value \<^verbatim>\<open>99\<close> gives step 1.
\<close>

theorem stored_step_on_load:
  "(getItem ls SETUP_STORAGE_KEY = None \<longrightarrow> initial_step ls = 1)
   \<and> (getItem ls SETUP_STORAGE_KEY = Some s \<and> parseInt10 s = None \<longrightarrow> initial_step ls = 1)
   \<and> (getItem ls SETUP_STORAGE_KEY = Some s \<and> parseInt10 s = Some n \<and> (n < 1 \<or> 9 < n) \<longrightarrow>
        initial_step ls = 1)
   \<and> (getItem ls SETUP_STORAGE_KEY = Some s \<and> parseInt10 s = Some n \<and> 1 \<le> n \<and> n \<le> 9 \<longrightarrow>
        initial_step ls = n)
   \<and> initial_step_of (Some ''99'') = 1"
proof -
  have a: "getItem ls SETUP_STORAGE_KEY = None \<longrightarrow> initial_step ls = 1"
    by (simp add: initial_step_def initial_step_of_def)
  have b: "getItem ls SETUP_STORAGE_KEY = Some s \<and> parseInt10 s = None \<longrightarrow> initial_step ls = 1"
    by (simp add: initial_step_def initial_step_of_def)
  have c: "getItem ls SETUP_STORAGE_KEY = Some s \<and> parseInt10 s = Some n \<and> (n < 1 \<or> 9 < n) \<longrightarrow>
        initial_step ls = 1"
    by (auto simp: initial_step_def initial_step_of_def)
  have d: "getItem ls SETUP_STORAGE_KEY = Some s \<and> parseInt10 s = Some n \<and> 1 \<le> n \<and> n \<le> 9 \<longrightarrow>
        initial_step ls = n"
    by (cases "s = []") (auto simp: initial_step_def initial_step_of_def parseInt10_Nil)
  have e: "initial_step_of (Some ''99'') = 1"
    by code_simp
  from a b c d e show ?thesis by blast
qed

theorem stored_step_on_load_witness:
  "initial_step (Items (\<lambda>k. if k = SETUP_STORAGE_KEY then Some ''7'' else None)) = 7 \<and>
   initial_step (Items (\<lambda>k. if k = SETUP_STORAGE_KEY then Some ''99'' else None)) = 1 \<and>
   initial_step (Items (\<lambda>k. if k = SETUP_STORAGE_KEY then Some ''abc'' else None)) = 1 \<and>
   initial_step Throwing = 1"
proof -
  let ?ls = "\<lambda>v. Items (\<lambda>k. if k = SETUP_STORAGE_KEY then Some v else None)"
  have g: "\<And>v. getItem (?ls v) SETUP_STORAGE_KEY = Some v" by (simp add: getItem_def)
  have g0: "getItem Throwing SETUP_STORAGE_KEY = None" by (simp add: getItem_def)
  have p: "parseInt10 ''7'' = Some 7" "parseInt10 ''99'' = Some 99" "parseInt10 ''abc'' = None"
    by code_simp+
  from stored_step_on_load [of "?ls ''7''" "''7''" 7] g p(1)
  have r1: "initial_step (?ls ''7'') = 7" by simp
  from stored_step_on_load [of "?ls ''99''" "''99''" 99] g p(2)
  have r2: "initial_step (?ls ''99'') = 1" by simp
  from stored_step_on_load [of "?ls ''abc''" "''abc''"] g p(3)
  have r3: "initial_step (?ls ''abc'') = 1" by simp
  from stored_step_on_load [of Throwing] g0
  have r4: "initial_step Throwing = 1" by simp
  from r1 r2 r3 r4 show ?thesis by simp
qed

lemma refetchInterval_rate_limited: "isRateLimited w \<Longrightarrow> refetchInterval w = None"
  by (simp add: refetchInterval_def)

lemma wizard_event_keeps_limit:
  "isRateLimited w \<Longrightarrow> (\<forall>body. ev \<noteq> Response (HttpOk body)) \<Longrightarrow> isRateLimited (wizard_event w ev)"
proof (cases ev)
  case (Response res)
  assume "isRateLimited w" "\<forall>body. ev \<noteq> Response (HttpOk body)"
  with Response show ?thesis
    by (cases res) (simp_all add: on_response_def status_queryFn_def)
next
  case (SetStep n)
  assume "isRateLimited w"
  with SetStep show ?thesis by simp
qed

lemma run_events_keeps_limit:
  "isRateLimited w \<Longrightarrow> (\<forall>ev \<in> set evs. \<forall>body. ev \<noteq> Response (HttpOk body)) \<Longrightarrow>
     isRateLimited (run_events w evs)"
  unfolding run_events_def
proof (induction evs arbitrary: w)
  case Nil
  then show ?case by simp
next
  case (Cons ev evs)
  from Cons.prems have "isRateLimited (wizard_event w ev)"
    by (intro wizard_event_keeps_limit) simp_all
  with Cons.prems show ?case by (simp add: Cons.IH)
qed

text \<open>
  C9 (as amended). The polling interval is 5000 ms or none, and it is 5000 ms only on
  step 8, with the rate-limit flag clear and no "configured" status cached for that step.
  A 429 response stops polling, and polling stays stopped through step changes and
  further failed or 429 responses, until a status request succeeds: a successful response
  clears the flag, and on step 8 one that is not "configured" starts polling again. A
  "configured" status stops polling for the step it was fetched on.
\<close>

theorem polling_rule:
  "(refetchInterval w = Some d \<longrightarrow>
      d = 5000 \<and> step w = 8 \<and> \<not> isRateLimited w \<and>
      (\<forall>st. cache w (step w) = Some st \<longrightarrow> \<not> configured st))
   \<and> refetchInterval (on_response w Http429) = None
   \<and> ((\<forall>ev \<in> set evs. \<forall>body. ev \<noteq> Response (HttpOk body)) \<longrightarrow>
        refetchInterval (run_events (on_response w Http429) evs) = None)
   \<and> \<not> isRateLimited (on_response w (HttpOk body))
   \<and> (configured st \<longrightarrow> refetchInterval (on_response w (HttpOk (Some st))) = None)
   \<and> (step w = 8 \<and> \<not> configured st \<longrightarrow>
        refetchInterval (on_response w (HttpOk (Some st))) = Some 5000)"
proof -
  have a: "refetchInterval w = Some d \<longrightarrow>
      d = 5000 \<and> step w = 8 \<and> \<not> isRateLimited w \<and>
      (\<forall>st. cache w (step w) = Some st \<longrightarrow> \<not> configured st)"
    by (auto simp: refetchInterval_def split: if_splits option.splits)
  have l: "isRateLimited (on_response w Http429)"
    by (simp add: on_response_def status_queryFn_def)
  have b: "refetchInterval (on_response w Http429) = None"
    using l by (rule refetchInterval_rate_limited)
  have c: "(\<forall>ev \<in> set evs. \<forall>body. ev \<noteq> Response (HttpOk body)) \<longrightarrow>
        refetchInterval (run_events (on_response w Http429) evs) = None"
    using l by (blast intro: refetchInterval_rate_limited run_events_keeps_limit)
  have d: "\<not> isRateLimited (on_response w (HttpOk body))"
    by (cases body) (simp_all add: on_response_def status_queryFn_def)
  have e: "configured st \<longrightarrow> refetchInterval (on_response w (HttpOk (Some st))) = None"
    by (simp add: on_response_def status_queryFn_def refetchInterval_def)
  have f: "step w = 8 \<and> \<not> configured st \<longrightarrow>
        refetchInterval (on_response w (HttpOk (Some st))) = Some 5000"
    by (simp add: on_response_def status_queryFn_def refetchInterval_def)
  from a b c d e f show ?thesis by blast
qed

theorem polling_rule_witness:
  "refetchInterval \<lparr>step = 8, isRateLimited = False, cache = (\<lambda>k. None)\<rparr> = Some 5000 \<and>
   refetchInterval \<lparr>step = 7, isRateLimited = False, cache = (\<lambda>k. None)\<rparr> = None \<and>
   refetchInterval
     (run_events (on_response \<lparr>step = 8, isRateLimited = False, cache = (\<lambda>k. None)\<rparr> Http429)
        [SetStep 7, Response HttpFailure, SetStep 8, Response Http429]) = None \<and>
   refetchInterval
     (on_response \<lparr>step = 8, isRateLimited = False, cache = (\<lambda>k. None)\<rparr>
        (HttpOk (Some \<lparr>configured = True, missing = [], details = []\<rparr>))) = None"
proof -
  let ?w = "\<lparr>step = 8, isRateLimited = False, cache = (\<lambda>k. None)\<rparr>"
  let ?evs = "[SetStep 7, Response HttpFailure, SetStep 8, Response Http429]"
  let ?st = "\<lparr>configured = True, missing = [], details = []\<rparr>"
  have r1: "refetchInterval ?w = Some 5000" by (simp add: refetchInterval_def)
  have r2: "refetchInterval \<lparr>step = 7, isRateLimited = False, cache = (\<lambda>k. None)\<rparr> = None"
    by (simp add: refetchInterval_def)
  have h: "\<forall>ev \<in> set ?evs. \<forall>body. ev \<noteq> Response (HttpOk body)" by simp
  have k: "configured ?st" by simp
  from polling_rule [of ?w 5000 ?evs None ?st] h
  have r3: "refetchInterval (run_events (on_response ?w Http429) ?evs) = None" by blast
  from polling_rule [of ?w 5000 ?evs None ?st] k
  have r4: "refetchInterval (on_response ?w (HttpOk (Some ?st))) = None" by blast
  from r1 r2 r3 r4 show ?thesis by blast
qed

text \<open>
  C9 as stated fails: polling resumes after a 429. On step 8 a 429 response stops polling;
  the user goes back to step 7, where the status request succeeds and clears the flag;
  back on step 8 the interval is 5000 ms again.
\<close>

theorem polling_resumes_counterexample:
  "refetchInterval
     (run_events \<lparr>step = 8, isRateLimited = False, cache = (\<lambda>k. None)\<rparr> [Response Http429]) = None \<and>
   refetchInterval
     (run_events \<lparr>step = 8, isRateLimited = False, cache = (\<lambda>k. None)\<rparr>
        [Response Http429, SetStep 7,
         Response (HttpOk (Some \<lparr>configured = False, missing = [''GOOGLE_CLIENT_ID''], details = []\<rparr>)),
         SetStep 8]) = Some 5000"
  by (simp add: run_events_def on_response_def status_queryFn_def refetchInterval_def)



section \<open>The claims about the configuration query\<close>

lemma catch_block_default: "\<exists>warnings. catch_block year oc e = Inr (warnings, DEFAULT_CONFIG year)"
  by (simp add: catch_block_def)

lemma queryFn_Inr: "\<exists>warnings cfg. queryFn year oc = Inr (warnings, cfg)"
proof (cases "try_block year oc")
  case (Inl e)
  with catch_block_default [of year oc e] show ?thesis by (auto simp: queryFn_def)
next
  case (Inr r)
  then show ?thesis by (cases r) (simp add: queryFn_def)
qed



lemma queryFn_not_ok:
  "fetched oc = Resolves res \<Longrightarrow> \<not> ok res \<Longrightarrow>
     \<exists>warnings. queryFn year oc = Inr (warnings, DEFAULT_CONFIG year)"
  using catch_block_default [of year oc "new_Error ''Request was cancelled''"]
    catch_block_default [of year oc
      "new_Error (''Failed to load configuration: '' @ show_nat (status res) @ '' '' @ statusText res)"]
  by (simp add: queryFn_def try_block_def)







lemma retry_only_first: "retry failureCount error \<Longrightarrow> failureCount = 0"
  by (simp add: retry_def split: if_splits)

lemma run_query_after_first: "0 < failureCount \<Longrightarrow> fst (run_query f ocs failureCount) = []"
proof (cases ocs)
  case Nil
  then show ?thesis by simp
next
  case (Cons oc rest)
  assume "0 < failureCount"
  then have "\<And>e. \<not> retry failureCount e" by (auto dest: retry_only_first)
  with Cons show ?thesis by (simp split: sum.splits)
qed

lemma run_query_delays:
  "fst (run_query f ocs 0) = [] \<or> fst (run_query f ocs 0) = [retryDelay 0]"
proof (cases ocs)
  case Nil
  then show ?thesis by simp
next
  case (Cons oc rest)
  have "fst (run_query f rest (Suc 0)) = []" by (rule run_query_after_first) simp
  with Cons show ?thesis by (auto split: sum.splits prod.splits)
qed

lemma run_query_queryFn: "fst (run_query (queryFn year) ocs failureCount) = []"
proof (cases ocs)
  case Nil
  then show ?thesis by simp
next
  case (Cons oc rest)
  from queryFn_Inr [of year oc] obtain w c where "queryFn year oc = Inr (w, c)" by blast
  with Cons show ?thesis by simp
qed

lemma retryDelay_mono: "retryDelay i \<le> retryDelay (Suc i)"
  by (simp add: retryDelay_def min_le_iff_disj)

text \<open>
  C8. The retry option allows a retry only after the first failure and only when the
  failure is an error whose message, in lower case, mentions \<^verbatim>\<open>network\<close>, \<^verbatim>\<open>timeout\<close>, \<^verbatim>\<open>500\<close>,
  \<^verbatim>\<open>503\<close> or \<^verbatim>\<open>502\<close>. So the retry loop, around any query function, retries at most once, and
  the delay it waits is \<open>retryDelay 0\<close>, 1000 ms. The delay doubles with the attempt index
  and never exceeds 5000 ms. Around the configuration query itself no retry happens at
  all, for a 4xx response in particular: the query function answers it with the default
  configuration and does not fail.
\<close>

theorem config_retry_policy:
  "(retry failureCount error \<longrightarrow>
      failureCount = 0 \<and> is_Error error \<and>
      (includes_str (toLowerCase (err_message error)) ''network'' \<or>
       includes_str (toLowerCase (err_message error)) ''timeout'' \<or>
       includes_str (toLowerCase (err_message error)) ''500'' \<or>
       includes_str (toLowerCase (err_message error)) ''503'' \<or>
       includes_str (toLowerCase (err_message error)) ''502''))
   \<and> length (fst (run_query f ocs 0)) \<le> 1
   \<and> (\<forall>d \<in> set (fst (run_query f ocs 0)). d = 1000)
   \<and> retryDelay i = min (1000 * 2 ^ i) 5000
   \<and> retryDelay i \<le> 5000
   \<and> retryDelay i \<le> retryDelay (Suc i)
   \<and> fst (run_query (queryFn year) qocs 0) = []
   \<and> (fetched oc = Resolves res \<and> 400 \<le> status res \<and> status res \<le> 499 \<longrightarrow>
        (\<exists>warnings. queryFn year oc = Inr (warnings, DEFAULT_CONFIG year)))"
proof -
  have a: "retry failureCount error \<longrightarrow>
      failureCount = 0 \<and> is_Error error \<and>
      (includes_str (toLowerCase (err_message error)) ''network'' \<or>
       includes_str (toLowerCase (err_message error)) ''timeout'' \<or>
       includes_str (toLowerCase (err_message error)) ''500'' \<or>
       includes_str (toLowerCase (err_message error)) ''503'' \<or>
       includes_str (toLowerCase (err_message error)) ''502'')"
    by (simp add: retry_def Let_def split: if_splits)
  have d0: "retryDelay 0 = 1000" by (simp add: retryDelay_def)
  have b: "length (fst (run_query f ocs 0)) \<le> 1"
    using run_query_delays [of f ocs] by auto
  have c: "\<forall>d \<in> set (fst (run_query f ocs 0)). d = 1000"
    using run_query_delays [of f ocs] d0 by auto
  have d: "retryDelay i = min (1000 * 2 ^ i) 5000" "retryDelay i \<le> 5000"
    by (simp_all add: retryDelay_def)
  have e: "fetched oc = Resolves res \<and> 400 \<le> status res \<and> status res \<le> 499 \<longrightarrow>
        (\<exists>warnings. queryFn year oc = Inr (warnings, DEFAULT_CONFIG year))"
    using queryFn_not_ok [of oc res year] by (auto simp: ok_def)
  from a b c d retryDelay_mono [of i] run_query_queryFn [of year qocs 0] e
  show ?thesis by blast
qed

theorem config_retry_policy_witness:
  "retry 0 (new_Error ''Network request failed'') \<and>
   \<not> retry 1 (new_Error ''Network request failed'') \<and>
   fst (run_query (\<lambda>u::unit. (Inl (new_Error ''Network request failed'') :: thrown + unit))
          [(), (), ()] 0) = [1000] \<and>
   retryDelay 1 = 2000 \<and> retryDelay 3 = 5000 \<and>
   (\<exists>warnings. queryFn 2026
       \<lparr>fetched = Resolves \<lparr>status = 404, statusText = ''Not Found'', json = JsonValue JNull\<rparr>,
        aborted_after_fetch = False, aborted_in_catch = False\<rparr>
     = Inr (warnings, DEFAULT_CONFIG 2026))"
proof -
  let ?f = "\<lambda>u::unit. (Inl (new_Error ''Network request failed'') :: thrown + unit)"
  let ?r = "\<lparr>status = 404, statusText = ''Not Found'', json = JsonValue JNull\<rparr>"
  let ?o = "\<lparr>fetched = Resolves ?r, aborted_after_fetch = False, aborted_in_catch = False\<rparr>"
  have r0: "retry 0 (new_Error ''Network request failed'')" by code_simp
  have r1: "\<not> retry 1 (new_Error ''Network request failed'')" by (simp add: retry_def)
  have q: "fst (run_query ?f [(), (), ()] 0) = [retryDelay 0]"
    using r0 r1 by (simp split: prod.splits)
  have h: "fetched ?o = Resolves ?r \<and> 400 \<le> status ?r \<and> status ?r \<le> 499" by simp
  note p = config_retry_policy [of 0 "new_Error ''Network request failed''" ?f "[(), (), ()]" 1 2026 "[]" ?o ?r]
  from p q have q': "fst (run_query ?f [(), (), ()] 0) = [1000]" by simp
  from p h have w: "\<exists>warnings. queryFn 2026 ?o = Inr (warnings, DEFAULT_CONFIG 2026)" by blast
  have d: "retryDelay 1 = 2000" "retryDelay 3 = 5000" by (simp_all add: retryDelay_def)
  from r0 r1 q' d w show ?thesis by (intro conjI)
qed


end
